theory Spec2Isabelle
  imports Main "HOL-Library.Word"
begin

section \<open>Data of the chain client interface\<close>

text \<open>
  The helpers of package \<open>flow_helpers\<close> talk to the ledger through the SDK's
  \<open>client.Client\<close>. A Go \<open>error\<close> value is modelled by its message; a pointer
  that may be \<open>nil\<close> is an \<open>option\<close>, and \<open>nil\<close> is \<open>None\<close>.
  \<open>flow.Identifier\<close> is a 32-byte array, that is a 256-bit word whose zero value
  \<open>flow.Identifier{}\<close> is \<open>0\<close>.
\<close>

type_synonym error = string

type_synonym Identifier = "256 word"

datatype TransactionStatus =
    TransactionStatusUnknown
  | TransactionStatusPending
  | TransactionStatusFinalized
  | TransactionStatusExecuted
  | TransactionStatusSealed
  | TransactionStatusExpired

record TransactionResult =
  Status :: TransactionStatus
  Error :: "error option"
  Events :: "string list"

record Block =
  ID :: Identifier
  ParentID :: Identifier
  Height :: nat

text \<open>
  The client is an external collaborator. Its answers are a parameter of the model:
  \<open>latest_block c k sealed\<close> is what the \<open>k\<close>-th call of \<open>GetLatestBlock\<close>
  answers when asked with the flag \<open>sealed\<close>, and \<open>transaction_result c k id\<close> is
  what the \<open>k\<close>-th call of \<open>GetTransactionResult\<close> answers for transaction \<open>id\<close>.
  An answer is the Go pair \<open>(result, err)\<close>. A cancelled or expired context shows
  as an \<open>err\<close> of the call that observes it.
\<close>

record Client =
  latest_block :: "nat \<Rightarrow> bool \<Rightarrow> Block option \<times> error option"
  transaction_result :: "nat \<Rightarrow> Identifier \<Rightarrow> TransactionResult option \<times> error option"

text \<open>
  The effects of the helpers are counted in the \<open>world\<close>: the calls made to the
  client so far and the seconds spent in \<open>time.Sleep\<close>.
\<close>

record world =
  block_calls :: nat
  result_calls :: nat
  slept :: nat

text \<open>
  A Go function either returns its values or panics (dereferencing a \<open>nil\<close>
  pointer).
\<close>

datatype 'a outcome = Return 'a | Panic

definition GetLatestBlock ::
  "Client \<Rightarrow> bool \<Rightarrow> world \<Rightarrow> (Block option \<times> error option) \<times> world" where
  "GetLatestBlock c isSealed w =
     (latest_block c (block_calls w) isSealed, w\<lparr>block_calls := Suc (block_calls w)\<rparr>)"

definition GetTransactionResult ::
  "Client \<Rightarrow> Identifier \<Rightarrow> world \<Rightarrow> (TransactionResult option \<times> error option) \<times> world" where
  "GetTransactionResult c txid w =
     (transaction_result c (result_calls w) txid, w\<lparr>result_calls := Suc (result_calls w)\<rparr>)"

definition Sleep :: "nat \<Rightarrow> world \<Rightarrow> world" where
  "Sleep seconds w = w\<lparr>slept := slept w + seconds\<rparr>"

section \<open>The helpers\<close>

definition GetLatestBlockId ::
  "Client \<Rightarrow> world \<Rightarrow> (Identifier \<times> error option) outcome \<times> world" where
  "GetLatestBlockId c w =
     (case GetLatestBlock c True w of
        ((block, err), w') \<Rightarrow>
          if err \<noteq> None then (Return (0, err), w')
          else (case block of
                  None \<Rightarrow> (Panic, w')
                | Some b \<Rightarrow> (Return (ID b, None), w')))"

text \<open>
  The \<open>for\<close> loop of \<open>WaitForSeal\<close> has no bound, so it is a partial function:
  \<open>None\<close> is the run that never returns. The loop variable \<open>result\<close> is not
  \<open>nil\<close> when the loop condition reads it.
\<close>

partial_function (option) WaitForSeal_loop ::
  "Client \<Rightarrow> Identifier \<Rightarrow> TransactionResult \<Rightarrow> world
     \<Rightarrow> ((TransactionResult option \<times> error option) outcome \<times> world) option" where
  "WaitForSeal_loop c txid result w =
     (if Status result \<noteq> TransactionStatusSealed then
        (case GetTransactionResult c txid (Sleep 1 w) of
           ((result', err), w') \<Rightarrow>
             if err \<noteq> None then Some (Return (result', err), w')
             else (case result' of
                     None \<Rightarrow> Some (Panic, w')
                   | Some r \<Rightarrow>
                       if Error r \<noteq> None then Some (Return (Some r, Error r), w')
                       else WaitForSeal_loop c txid r w'))
      else Some (Return (Some result, None), w))"

definition WaitForSeal ::
  "Client \<Rightarrow> Identifier \<Rightarrow> world
     \<Rightarrow> ((TransactionResult option \<times> error option) outcome \<times> world) option" where
  "WaitForSeal c txid w =
     (case GetTransactionResult c txid w of
        ((result, err), w') \<Rightarrow>
          if err \<noteq> None then Some (Return (result, err), w')
          else (case result of
                  None \<Rightarrow> Some (Panic, w')
                | Some r \<Rightarrow>
                    if Error r \<noteq> None then Some (Return (Some r, Error r), w')
                    else WaitForSeal_loop c txid r w'))"

section \<open>Vocabulary for the polls of \<open>WaitForSeal\<close>\<close>

text \<open>
  An answer of \<open>GetTransactionResult\<close> after which \<open>WaitForSeal\<close> goes on
  waiting: the call succeeded, the result carries no execution error and its status is
  not yet sealed.
\<close>

definition keeps_polling :: "TransactionResult option \<times> error option \<Rightarrow> bool" where
  "keeps_polling a =
     (case a of
        (Some r, None) \<Rightarrow> Error r = None \<and> Status r \<noteq> TransactionStatusSealed
      | _ \<Rightarrow> False)"

text \<open>What \<open>WaitForSeal\<close> hands back for an answer that ends the wait.\<close>

definition settles ::
  "TransactionResult option \<times> error option
     \<Rightarrow> (TransactionResult option \<times> error option) outcome" where
  "settles a =
     (case a of
        (result, Some e) \<Rightarrow> Return (result, Some e)
      | (None, None) \<Rightarrow> Panic
      | (Some r, None) \<Rightarrow> Return (Some r, Error r))"

section \<open>Concrete clients\<close>

definition pending_result :: TransactionResult where
  "pending_result =
     \<lparr>Status = TransactionStatusPending, Error = None, Events = []\<rparr>"

definition sealed_result :: TransactionResult where
  "sealed_result =
     \<lparr>Status = TransactionStatusSealed, Error = None, Events = [''Deposit'']\<rparr>"

definition reverted_result :: TransactionResult where
  "reverted_result =
     \<lparr>Status = TransactionStatusSealed, Error = Some ''insufficient funds'', Events = []\<rparr>"

definition block_7 :: Block where
  "block_7 = \<lparr>ID = 77, ParentID = 66, Height = 7\<rparr>"

definition world_0 :: world where
  "world_0 = \<lparr>block_calls = 0, result_calls = 0, slept = 0\<rparr>"

text \<open>Two pending answers, then sealed.\<close>

definition sealing_client :: Client where
  "sealing_client =
     \<lparr>latest_block = (\<lambda>k sealed. if sealed then (Some block_7, None)
                                  else (None, Some ''unsealed blocks are not served'')),
      transaction_result = (\<lambda>k txid. if k < 2 then (Some pending_result, None)
                                     else (Some sealed_result, None))\<rparr>"

text \<open>One pending answer, then a result that carries an execution error.\<close>

definition reverting_client :: Client where
  "reverting_client =
     \<lparr>latest_block = (\<lambda>k sealed. (None, Some ''unavailable'')),
      transaction_result = (\<lambda>k txid. if k < 1 then (Some pending_result, None)
                                     else (Some reverted_result, None))\<rparr>"

text \<open>One pending answer, then the node is unreachable.\<close>

definition unreachable_client :: Client where
  "unreachable_client =
     \<lparr>latest_block = (\<lambda>k sealed. (None, Some ''connection refused'')),
      transaction_result = (\<lambda>k txid. if k < 1 then (Some pending_result, None)
                                     else (None, Some ''connection refused''))\<rparr>"

text \<open>A transaction that stays pending for ever.\<close>

definition stuck_client :: Client where
  "stuck_client =
     \<lparr>latest_block = (\<lambda>k sealed. (Some block_7, None)),
      transaction_result = (\<lambda>k txid. (Some pending_result, None))\<rparr>"

section \<open>The job ledger and the worker pool\<close>

text \<open>
  Package \<open>jobs\<close> (the Job record, the Job Store and the Worker Pool) is used by
  the tests of the repository and is not part of the sources verified here. This section
  follows sections 3, 4.1 and 4.2 of the specification instead.
\<close>

text \<open>Modelled from the spec: the states of a Job (package \<open>jobs\<close> is missing);
  a job is created in state Accepted, and Complete and Failed are terminal.\<close>

datatype JobState = Accepted | Complete | Failed

definition terminal :: "JobState \<Rightarrow> bool" where
  "terminal s = (s = Complete \<or> s = Failed)"

text \<open>Modelled from the spec: the Job record (package \<open>jobs\<close> is missing), with
  its identifier, type tag, state, result (set only on success), error (set only on
  failure) and the two timestamps.\<close>

record Job =
  job_identifier :: nat
  job_type :: string
  job_state :: JobState
  job_result :: "string option"
  job_error :: "string option"
  created_at :: nat
  updated_at :: nat

type_synonym JobStore = "nat \<rightharpoonup> Job"

datatype StoreError = Conflict | NotFound | AlreadyTerminal

text \<open>Modelled from the spec: the record that \<open>Create\<close> persists (package \<open>jobs\<close>
  is missing): state Accepted, result and error unset.\<close>

definition new_job :: "nat \<Rightarrow> string \<Rightarrow> nat \<Rightarrow> Job" where
  "new_job ident ty now =
     \<lparr>job_identifier = ident, job_type = ty, job_state = Accepted,
      job_result = None, job_error = None, created_at = now, updated_at = now\<rparr>"

text \<open>Modelled from the spec: \<open>Create(job)\<close> of the Job Store (package \<open>jobs\<close> is
  missing): persists a new job in state Accepted and fails with a conflict error if the
  identifier already exists.\<close>

definition Create :: "JobStore \<Rightarrow> nat \<Rightarrow> string \<Rightarrow> nat \<Rightarrow> StoreError + JobStore" where
  "Create store ident ty now =
     (case store ident of
        Some existing \<Rightarrow> Inl Conflict
      | None \<Rightarrow> Inr (store(ident \<mapsto> new_job ident ty now)))"

text \<open>Modelled from the spec: the last two arguments of \<open>Transition\<close> (package
  \<open>jobs\<close> is missing): the terminal state together with its payload, Complete with a
  result or Failed with an error.\<close>

datatype Completion = Succeeded string | Failure string

definition complete_job :: "Job \<Rightarrow> Completion \<Rightarrow> nat \<Rightarrow> Job" where
  "complete_job job completion now =
     (case completion of
        Succeeded r \<Rightarrow> job\<lparr>job_state := Complete, job_result := Some r, updated_at := now\<rparr>
      | Failure e \<Rightarrow> job\<lparr>job_state := Failed, job_error := Some e, updated_at := now\<rparr>)"

text \<open>Modelled from the spec: \<open>Transition(id, newState, result|error)\<close> of the Job
  Store (package \<open>jobs\<close> is missing): moves a job to a terminal state and rejects
  the attempt on a job that is already terminal, with an error.\<close>

definition Transition ::
  "JobStore \<Rightarrow> nat \<Rightarrow> Completion \<Rightarrow> nat \<Rightarrow> StoreError + JobStore" where
  "Transition store ident completion now =
     (case store ident of
        None \<Rightarrow> Inl NotFound
      | Some job \<Rightarrow>
          if terminal (job_state job) then Inl AlreadyTerminal
          else Inr (store(ident \<mapsto> complete_job job completion now)))"

text \<open>
  The mutations of the ledger, and the ledger after a sequence of them. A rejected
  mutation leaves the ledger as it was.
\<close>

datatype StoreOp = OpCreate nat string nat | OpTransition nat Completion nat

fun apply_op :: "JobStore \<Rightarrow> StoreOp \<Rightarrow> JobStore" where
  "apply_op store (OpCreate ident ty now) =
     (case Create store ident ty now of Inl e \<Rightarrow> store | Inr store' \<Rightarrow> store')"
| "apply_op store (OpTransition ident completion now) =
     (case Transition store ident completion now of Inl e \<Rightarrow> store | Inr store' \<Rightarrow> store')"

definition run_ops :: "JobStore \<Rightarrow> StoreOp list \<Rightarrow> JobStore" where
  "run_ops store ops = foldl apply_op store ops"

text \<open>
  What the data model asks of a stored job: result and error are unset while the job
  is Accepted, a Complete job has a result and no error, a Failed job an error and no
  result.
\<close>

definition consistent :: "Job \<Rightarrow> bool" where
  "consistent job =
     (case job_state job of
        Accepted \<Rightarrow> job_result job = None \<and> job_error job = None
      | Complete \<Rightarrow> job_result job \<noteq> None \<and> job_error job = None
      | Failed \<Rightarrow> job_result job = None \<and> job_error job \<noteq> None)"

text \<open>Modelled from the spec: the Worker Pool (package \<open>jobs\<close> is missing) with
  \<open>W\<close> workers and a backlog of capacity \<open>Q\<close>; \<open>in_flight\<close> are the jobs
  handed to a worker, \<open>backlog\<close> the queued ones, oldest first.\<close>

record WorkerPool =
  worker_count :: nat
  backlog_capacity :: nat
  in_flight :: "nat list"
  backlog :: "nat list"
  job_store :: JobStore

datatype SubmitError = AdmissionError | StoreFailure StoreError

text \<open>Modelled from the spec: \<open>Submit(workflow)\<close> of the Worker Pool (package
  \<open>jobs\<close> is missing): creates a Job record in state Accepted, persists it, and hands
  it to an idle worker or places it in the backlog; if the worker slots and the backlog
  are both full, the submission fails with an admission error.\<close>

definition Submit ::
  "WorkerPool \<Rightarrow> nat \<Rightarrow> string \<Rightarrow> nat \<Rightarrow> (SubmitError + Job) \<times> WorkerPool" where
  "Submit pool ident workflow now =
     (case Create (job_store pool) ident workflow now of
        Inl e \<Rightarrow> (Inl (StoreFailure e), pool)
      | Inr store' \<Rightarrow>
          if length (in_flight pool) < worker_count pool then
            (Inr (new_job ident workflow now),
             pool\<lparr>in_flight := in_flight pool @ [ident], job_store := store'\<rparr>)
          else if length (backlog pool) < backlog_capacity pool then
            (Inr (new_job ident workflow now),
             pool\<lparr>backlog := backlog pool @ [ident], job_store := store'\<rparr>)
          else (Inl AdmissionError, pool\<lparr>job_store := store'\<rparr>))"

text \<open>
  Submissions in quick succession: one after the other, no worker finishing in
  between.
\<close>

fun submit_all ::
  "WorkerPool \<Rightarrow> (nat \<times> string \<times> nat) list \<Rightarrow> (SubmitError + Job) list \<times> WorkerPool" where
  "submit_all pool [] = ([], pool)"
| "submit_all pool ((ident, workflow, now) # rest) =
     (case Submit pool ident workflow now of
        (r, pool') \<Rightarrow>
          (case submit_all pool' rest of
             (rs, pool'') \<Rightarrow> (r # rs, pool'')))"

definition accepted :: "SubmitError + Job \<Rightarrow> bool" where
  "accepted r = (case r of Inr job \<Rightarrow> job_state job = Accepted | Inl e \<Rightarrow> False)"

definition test_pool :: WorkerPool where
  "test_pool =
     \<lparr>worker_count = 1, backlog_capacity = 1, in_flight = [], backlog = [],
      job_store = Map.empty\<rparr>"

definition done_job :: Job where
  "done_job = \<lparr>job_identifier = 1, job_type = ''account_create'', job_state = Complete,
      job_result = Some ''0x01cf0e2f2f715450'', job_error = None, created_at = 10, updated_at = 20\<rparr>"

section \<open>The wait loop, poll by poll\<close>

lemma keeps_pollingD:
  "keeps_polling a \<Longrightarrow>
   \<exists>r. a = (Some r, None) \<and> Error r = None \<and> Status r \<noteq> TransactionStatusSealed"
  by (auto simp: keeps_polling_def split: prod.splits option.splits)

lemma keeps_pollingI:
  "a = (Some r, None) \<Longrightarrow> Error r = None \<Longrightarrow> Status r \<noteq> TransactionStatusSealed \<Longrightarrow>
   keeps_polling a"
  by (simp add: keeps_polling_def)

lemma loop_sealed:
  "Status result = TransactionStatusSealed \<Longrightarrow>
   WaitForSeal_loop c txid result w = Some (Return (Some result, None), w)"
  by (subst WaitForSeal_loop.simps) simp

lemma loop_step:
  assumes "Status result \<noteq> TransactionStatusSealed"
    and "keeps_polling (transaction_result c (result_calls w) txid)"
  shows "\<exists>r. Status r \<noteq> TransactionStatusSealed
     \<and> WaitForSeal_loop c txid result w =
       WaitForSeal_loop c txid r
         (w\<lparr>result_calls := Suc (result_calls w), slept := slept w + 1\<rparr>)"
proof -
  from assms(2) obtain r where r: "transaction_result c (result_calls w) txid = (Some r, None)"
    "Error r = None" "Status r \<noteq> TransactionStatusSealed"
    by (blast dest: keeps_pollingD)
  have "WaitForSeal_loop c txid result w =
       WaitForSeal_loop c txid r
         (w\<lparr>result_calls := Suc (result_calls w), slept := slept w + 1\<rparr>)"
    using assms(1) r
    by (subst WaitForSeal_loop.simps, cases w)
       (simp add: GetTransactionResult_def Sleep_def)
  with r(3) show ?thesis by blast
qed

lemma loop_stop:
  assumes "Status result \<noteq> TransactionStatusSealed"
    and "\<not> keeps_polling (transaction_result c (result_calls w) txid)"
  shows "WaitForSeal_loop c txid result w =
     Some (settles (transaction_result c (result_calls w) txid),
           w\<lparr>result_calls := Suc (result_calls w), slept := slept w + 1\<rparr>)"
  using assms
  apply (subst WaitForSeal_loop.simps)
  apply (cases w)
  apply (simp add: GetTransactionResult_def Sleep_def keeps_polling_def settles_def
       split: prod.splits option.splits)
  apply (auto simp: loop_sealed)
  done

lemma loop_run:
  "Status result \<noteq> TransactionStatusSealed \<Longrightarrow>
   result_calls w + n = k \<Longrightarrow>
   \<forall>j. result_calls w \<le> j \<and> j < k \<longrightarrow> keeps_polling (transaction_result c j txid) \<Longrightarrow>
   \<not> keeps_polling (transaction_result c k txid) \<Longrightarrow>
   WaitForSeal_loop c txid result w =
     Some (settles (transaction_result c k txid),
           w\<lparr>result_calls := Suc k, slept := slept w + Suc n\<rparr>)"
proof (induction n arbitrary: result w)
  case 0
  then show ?case using loop_stop[of result c w txid] by simp
next
  case (Suc n)
  let ?w = "w\<lparr>result_calls := Suc (result_calls w), slept := slept w + 1\<rparr>"
  from Suc.prems have kp: "keeps_polling (transaction_result c (result_calls w) txid)"
    by simp
  from loop_step[OF Suc.prems(1) kp] obtain r where
    r: "Status r \<noteq> TransactionStatusSealed"
    and eq: "WaitForSeal_loop c txid result w = WaitForSeal_loop c txid r ?w"
    by blast
  have "WaitForSeal_loop c txid r ?w =
     Some (settles (transaction_result c k txid),
           ?w\<lparr>result_calls := Suc k, slept := slept ?w + Suc n\<rparr>)"
    using Suc.prems by (intro Suc.IH[OF r]) auto
  with eq show ?case by (cases w) simp
qed

lemma loop_returns_only_if:
  assumes "WaitForSeal_loop c txid result w = Some y"
  shows "Status result \<noteq> TransactionStatusSealed \<longrightarrow>
         (\<exists>j\<ge>result_calls w. \<not> keeps_polling (transaction_result c j txid))"
  using assms
proof (induction rule: WaitForSeal_loop.raw_induct[rotated 1, consumes 1, case_names step])
  case (step loop c txid result w y)
  show ?case
  proof
    assume ns: "Status result \<noteq> TransactionStatusSealed"
    show "\<exists>j\<ge>result_calls w. \<not> keeps_polling (transaction_result c j txid)"
    proof (cases "keeps_polling (transaction_result c (result_calls w) txid)")
      case False
      then show ?thesis by blast
    next
      case True
      then obtain r where r: "transaction_result c (result_calls w) txid = (Some r, None)"
        "Error r = None" "Status r \<noteq> TransactionStatusSealed"
        by (blast dest: keeps_pollingD)
      let ?w = "snd (GetTransactionResult c txid (Sleep 1 w))"
      from step(2) ns r have "loop c txid r ?w = Some y"
        by (simp add: GetTransactionResult_def Sleep_def)
      from step(1)[OF this] r(3) obtain j where "j \<ge> result_calls ?w"
        "\<not> keeps_polling (transaction_result c j txid)" by blast
      moreover have "result_calls ?w = Suc (result_calls w)"
        by (simp add: GetTransactionResult_def Sleep_def)
      ultimately show ?thesis by (intro exI[of _ j]) simp
    qed
  qed
qed

lemma loop_diverges:
  "Status result \<noteq> TransactionStatusSealed \<Longrightarrow>
   \<forall>j\<ge>result_calls w. keeps_polling (transaction_result c j txid) \<Longrightarrow>
   WaitForSeal_loop c txid result w = None"
  using loop_returns_only_if[of c txid result w]
  by (cases "WaitForSeal_loop c txid result w") auto

text \<open>
  The whole function: when poll number \<open>k\<close> is the first whose answer ends the wait,
  \<open>WaitForSeal\<close> returns what that answer settles, after \<open>k + 1\<close> polls counted
  from the start and one second of sleep before each poll but the first.
\<close>

lemma WaitForSeal_first:
  assumes "\<not> keeps_polling (transaction_result c (result_calls w) txid)"
  shows "WaitForSeal c txid w =
     Some (settles (transaction_result c (result_calls w) txid),
           w\<lparr>result_calls := Suc (result_calls w)\<rparr>)"
  using assms
  by (auto simp: WaitForSeal_def GetTransactionResult_def keeps_polling_def settles_def
        loop_sealed split: prod.splits option.splits)

lemma WaitForSeal_run:
  assumes le: "result_calls w \<le> k"
    and before: "\<forall>j. result_calls w \<le> j \<and> j < k \<longrightarrow> keeps_polling (transaction_result c j txid)"
    and last: "\<not> keeps_polling (transaction_result c k txid)"
  shows "WaitForSeal c txid w =
     Some (settles (transaction_result c k txid),
           w\<lparr>result_calls := Suc k, slept := slept w + (k - result_calls w)\<rparr>)"
proof (cases "k = result_calls w")
  case True
  with WaitForSeal_first[of c w txid] last show ?thesis by (cases w) simp
next
  case False
  with le obtain n where n: "Suc (result_calls w) + n = k"
    by (metis Suc_leI le_neq_implies_less le_Suc_ex add_Suc)
  let ?w = "w\<lparr>result_calls := Suc (result_calls w)\<rparr>"
  from before n have "keeps_polling (transaction_result c (result_calls w) txid)"
    by simp
  then obtain r where r: "transaction_result c (result_calls w) txid = (Some r, None)"
    "Error r = None" "Status r \<noteq> TransactionStatusSealed"
    by (blast dest: keeps_pollingD)
  then have "WaitForSeal c txid w = WaitForSeal_loop c txid r ?w"
    by (simp add: WaitForSeal_def GetTransactionResult_def)
  also have "\<dots> = Some (settles (transaction_result c k txid),
           ?w\<lparr>result_calls := Suc k, slept := slept ?w + Suc n\<rparr>)"
    using r(3) n before last by (intro loop_run) auto
  finally show ?thesis using n by (cases w) auto
qed

lemma WaitForSeal_diverges:
  assumes "\<forall>j\<ge>result_calls w. keeps_polling (transaction_result c j txid)"
  shows "WaitForSeal c txid w = None"
proof -
  from assms have "keeps_polling (transaction_result c (result_calls w) txid)"
    by simp
  then obtain r where r: "transaction_result c (result_calls w) txid = (Some r, None)"
    "Error r = None" "Status r \<noteq> TransactionStatusSealed"
    by (blast dest: keeps_pollingD)
  then have "WaitForSeal c txid w =
      WaitForSeal_loop c txid r (w\<lparr>result_calls := Suc (result_calls w)\<rparr>)"
    by (simp add: WaitForSeal_def GetTransactionResult_def)
  also have "\<dots> = None"
    using r(3) assms by (intro loop_diverges) auto
  finally show ?thesis .
qed

lemma WaitForSeal_cases:
  obtains (waits_for_ever)
      "\<forall>j\<ge>result_calls w. keeps_polling (transaction_result c j txid)"
      "WaitForSeal c txid w = None"
  | (returns_at) k where
      "result_calls w \<le> k"
      "\<forall>j. result_calls w \<le> j \<and> j < k \<longrightarrow> keeps_polling (transaction_result c j txid)"
      "\<not> keeps_polling (transaction_result c k txid)"
      "WaitForSeal c txid w =
         Some (settles (transaction_result c k txid),
               w\<lparr>result_calls := Suc k, slept := slept w + (k - result_calls w)\<rparr>)"
proof (cases "\<forall>j\<ge>result_calls w. keeps_polling (transaction_result c j txid)")
  case True
  with WaitForSeal_diverges[OF True] waits_for_ever show ?thesis by blast
next
  case False
  define stops where "stops j \<longleftrightarrow>
      result_calls w \<le> j \<and> \<not> keeps_polling (transaction_result c j txid)" for j
  from False have ex: "\<exists>j. stops j" by (auto simp: stops_def)
  define k where "k = (LEAST j. stops j)"
  from ex have k: "stops k" unfolding k_def by (metis LeastI)
  have least: "\<not> stops j" if "j < k" for j
    using that unfolding k_def by (rule not_less_Least)
  have 1: "result_calls w \<le> k" and 3: "\<not> keeps_polling (transaction_result c k txid)"
    using k by (auto simp: stops_def)
  have 2: "\<forall>j. result_calls w \<le> j \<and> j < k \<longrightarrow> keeps_polling (transaction_result c j txid)"
    using least by (auto simp: stops_def)
  from returns_at[OF 1 2 3 WaitForSeal_run[OF 1 2 3]] show ?thesis .
qed

section \<open>The ledger and the pool, step by step\<close>

lemma Create_keeps:
  "Create store ident ty now = Inr store' \<Longrightarrow> store i = Some job \<Longrightarrow> store' i = Some job"
  by (auto simp: Create_def split: option.splits)

lemma Transition_keeps_terminal:
  "Transition store ident completion now = Inr store' \<Longrightarrow> store i = Some job \<Longrightarrow>
   terminal (job_state job) \<Longrightarrow> store' i = Some job"
  by (auto simp: Transition_def split: option.splits if_splits)

lemma apply_op_keeps_terminal:
  "store i = Some job \<Longrightarrow> terminal (job_state job) \<Longrightarrow> apply_op store op i = Some job"
  by (cases op) (auto split: sum.splits dest: Create_keeps Transition_keeps_terminal)

lemma run_ops_keeps_terminal:
  "store i = Some job \<Longrightarrow> terminal (job_state job) \<Longrightarrow> run_ops store ops i = Some job"
  unfolding run_ops_def
  by (induction ops arbitrary: store) (simp_all add: apply_op_keeps_terminal)

lemma consistent_new_job: "consistent (new_job ident ty now)"
  by (simp add: consistent_def new_job_def)

lemma consistent_complete_job:
  "consistent job \<Longrightarrow> \<not> terminal (job_state job) \<Longrightarrow> consistent (complete_job job completion now)"
  by (cases completion; cases "job_state job")
     (simp_all add: consistent_def complete_job_def terminal_def)

lemma apply_op_consistent:
  assumes "\<forall>i job. store i = Some job \<longrightarrow> consistent job"
  shows "\<forall>i job. apply_op store op i = Some job \<longrightarrow> consistent job"
proof (cases op)
  case (OpCreate ident ty now)
  with assms show ?thesis
    by (auto simp: Create_def consistent_new_job split: option.splits if_splits)
next
  case (OpTransition ident completion now)
  with assms show ?thesis
    by (auto simp: Transition_def consistent_complete_job split: option.splits if_splits)
qed

lemma run_ops_consistent:
  "\<forall>i job. store i = Some job \<longrightarrow> consistent job \<Longrightarrow>
   \<forall>i job. run_ops store ops i = Some job \<longrightarrow> consistent job"
  unfolding run_ops_def
proof (induction ops arbitrary: store)
  case Nil
  then show ?case by simp
next
  case (Cons op ops)
  from apply_op_consistent[OF Cons.prems, of op]
  have "\<forall>i job. foldl apply_op (apply_op store op) ops i = Some job \<longrightarrow> consistent job"
    by (rule Cons.IH)
  then show ?case by simp
qed

lemma consistentD:
  "consistent job \<Longrightarrow>
     (job_result job = None \<or> job_error job = None)
   \<and> (\<not> terminal (job_state job) \<longrightarrow> job_result job = None \<and> job_error job = None)"
  by (cases "job_state job") (simp_all add: consistent_def terminal_def)

lemma Submit_fresh:
  assumes "job_store pool ident = None"
  shows "Submit pool ident workflow now =
     (if length (in_flight pool) < worker_count pool then
        (Inr (new_job ident workflow now),
         pool\<lparr>in_flight := in_flight pool @ [ident],
              job_store := (job_store pool)(ident \<mapsto> new_job ident workflow now)\<rparr>)
      else if length (backlog pool) < backlog_capacity pool then
        (Inr (new_job ident workflow now),
         pool\<lparr>backlog := backlog pool @ [ident],
              job_store := (job_store pool)(ident \<mapsto> new_job ident workflow now)\<rparr>)
      else (Inl AdmissionError,
            pool\<lparr>job_store := (job_store pool)(ident \<mapsto> new_job ident workflow now)\<rparr>))"
  using assms by (simp add: Submit_def Create_def)

text \<open>The run of \<open>WaitForSeal\<close> against the client that seals at its third answer.\<close>

lemma sealing_client_returns:
  "WaitForSeal sealing_client 5 world_0 =
     Some (Return (Some sealed_result, None),
           \<lparr>block_calls = 0, result_calls = 3, slept = 2\<rparr>)"
  using WaitForSeal_run [of world_0 2 sealing_client 5]
  by (simp add: sealing_client_def world_0_def sealed_result_def pending_result_def
        keeps_polling_def settles_def)

section \<open>Properties of the helpers\<close>

text \<open>
  Claim C1. \<open>WaitForSeal\<close> returns a result with a \<open>nil\<close> error exactly when
  some poll \<open>k\<close> answers a result with status Sealed and no execution error, every poll
  before it having answered a result that was neither sealed nor failed; the value
  returned is the result of that poll, so it is sealed and carries no execution error.
  Polls \<open>result_calls w\<close> to \<open>k\<close> have been made, with one second of sleep before
  each of them but the first.
\<close>

theorem WaitForSeal_success_iff:
  "WaitForSeal c txid w = Some (Return (res, None), w') \<longleftrightarrow>
     (\<exists>k r. result_calls w \<le> k
        \<and> (\<forall>j. result_calls w \<le> j \<and> j < k \<longrightarrow> keeps_polling (transaction_result c j txid))
        \<and> transaction_result c k txid = (Some r, None)
        \<and> Status r = TransactionStatusSealed \<and> Error r = None
        \<and> res = Some r
        \<and> w' = w\<lparr>result_calls := Suc k, slept := slept w + (k - result_calls w)\<rparr>)"
  (is "?L \<longleftrightarrow> ?R")
proof
  assume L: ?L
  show ?R
  proof (cases rule: WaitForSeal_cases[of w c txid])
    case waits_for_ever
    with L show ?thesis by simp
  next
    case (returns_at k)
    from returns_at(4) L have s: "settles (transaction_result c k txid) = Return (res, None)"
      and w': "w' = w\<lparr>result_calls := Suc k, slept := slept w + (k - result_calls w)\<rparr>"
      by simp_all
    from s obtain r where r: "transaction_result c k txid = (Some r, None)"
      "Error r = None" "res = Some r"
      by (auto simp: settles_def split: prod.splits option.splits)
    with returns_at(3) have "Status r = TransactionStatusSealed"
      by (auto simp: keeps_polling_def)
    with returns_at(1,2) r w' show ?thesis by blast
  qed
next
  assume ?R
  then obtain k r where le: "result_calls w \<le> k"
    and before: "\<forall>j. result_calls w \<le> j \<and> j < k \<longrightarrow> keeps_polling (transaction_result c j txid)"
    and r: "transaction_result c k txid = (Some r, None)"
      "Status r = TransactionStatusSealed" "Error r = None" "res = Some r"
    and w': "w' = w\<lparr>result_calls := Suc k, slept := slept w + (k - result_calls w)\<rparr>"
    by blast
  from r have last: "\<not> keeps_polling (transaction_result c k txid)"
    by (simp add: keeps_polling_def)
  from WaitForSeal_run[OF le before last] r w' show ?L
    by (simp add: settles_def)
qed

theorem WaitForSeal_success_iff_witness:
  "WaitForSeal sealing_client 5 world_0 =
     Some (Return (Some sealed_result, None),
           \<lparr>block_calls = 0, result_calls = 3, slept = 2\<rparr>)"
proof -
  have "\<exists>k r. result_calls world_0 \<le> k
        \<and> (\<forall>j. result_calls world_0 \<le> j \<and> j < k
              \<longrightarrow> keeps_polling (transaction_result sealing_client j 5))
        \<and> transaction_result sealing_client k 5 = (Some r, None)
        \<and> Status r = TransactionStatusSealed \<and> Error r = None
        \<and> Some sealed_result = Some r
        \<and> \<lparr>block_calls = 0, result_calls = 3, slept = 2\<rparr> =
            world_0\<lparr>result_calls := Suc k, slept := slept world_0 + (k - result_calls world_0)\<rparr>"
    by (intro exI[of _ 2] exI[of _ sealed_result])
       (simp add: sealing_client_def world_0_def sealed_result_def pending_result_def
          keeps_polling_def)
  then show ?thesis
    by (simp only: WaitForSeal_success_iff [of sealing_client 5 world_0 "Some sealed_result"
          "\<lparr>block_calls = 0, result_calls = 3, slept = 2\<rparr>"])
qed

text \<open>
  Claim C2. When the wait reaches poll \<open>k\<close> and that poll answers a result carrying
  an execution error \<open>e\<close>, \<open>WaitForSeal\<close> returns at that poll, with \<open>e\<close> as its
  error, whatever the status of the result; and no result that carries an execution
  error is ever returned with a \<open>nil\<close> error. (A poll that answers a result has a
  \<open>nil\<close> transport error: the transport error is tested first.)
\<close>

theorem WaitForSeal_execution_error:
  "(result_calls w \<le> k
      \<and> (\<forall>j. result_calls w \<le> j \<and> j < k \<longrightarrow> keeps_polling (transaction_result c j txid))
      \<and> transaction_result c k txid = (Some r, None) \<and> Error r = Some e
    \<longrightarrow> WaitForSeal c txid w =
          Some (Return (Some r, Some e),
                w\<lparr>result_calls := Suc k, slept := slept w + (k - result_calls w)\<rparr>))
   \<and> (WaitForSeal c txid w = Some (Return (Some r', None), w') \<longrightarrow> Error r' = None)"
proof (intro conjI impI)
  assume "result_calls w \<le> k
      \<and> (\<forall>j. result_calls w \<le> j \<and> j < k \<longrightarrow> keeps_polling (transaction_result c j txid))
      \<and> transaction_result c k txid = (Some r, None) \<and> Error r = Some e"
  then have le: "result_calls w \<le> k"
    and before: "\<forall>j. result_calls w \<le> j \<and> j < k \<longrightarrow> keeps_polling (transaction_result c j txid)"
    and r: "transaction_result c k txid = (Some r, None)" "Error r = Some e"
    by blast+
  from r have last: "\<not> keeps_polling (transaction_result c k txid)"
    by (simp add: keeps_polling_def)
  from WaitForSeal_run[OF le before last] r
  show "WaitForSeal c txid w =
          Some (Return (Some r, Some e),
                w\<lparr>result_calls := Suc k, slept := slept w + (k - result_calls w)\<rparr>)"
    by (simp add: settles_def)
next
  assume L: "WaitForSeal c txid w = Some (Return (Some r', None), w')"
  show "Error r' = None"
  proof (cases rule: WaitForSeal_cases[of w c txid])
    case waits_for_ever
    with L show ?thesis by simp
  next
    case (returns_at k)
    with L have "settles (transaction_result c k txid) = Return (Some r', None)"
      by simp
    then show ?thesis
      by (auto simp: settles_def split: prod.splits option.splits)
  qed
qed

theorem WaitForSeal_execution_error_witness:
  "WaitForSeal reverting_client 5 world_0 =
     Some (Return (Some reverted_result, Some ''insufficient funds''),
           \<lparr>block_calls = 0, result_calls = 2, slept = 1\<rparr>)
   \<and> Status reverted_result = TransactionStatusSealed
   \<and> Error sealed_result = None"
proof -
  have "result_calls world_0 \<le> 1
      \<and> (\<forall>j. result_calls world_0 \<le> j \<and> j < 1
            \<longrightarrow> keeps_polling (transaction_result reverting_client j 5))
      \<and> transaction_result reverting_client 1 5 = (Some reverted_result, None)
      \<and> Error reverted_result = Some ''insufficient funds''"
    by (simp add: reverting_client_def world_0_def reverted_result_def pending_result_def
          keeps_polling_def)
  with WaitForSeal_execution_error
    [of world_0 1 reverting_client 5 reverted_result "''insufficient funds''"]
  have 1: "WaitForSeal reverting_client 5 world_0 =
     Some (Return (Some reverted_result, Some ''insufficient funds''),
           \<lparr>block_calls = 0, result_calls = 2, slept = 1\<rparr>)"
    by (simp add: world_0_def)
  from sealing_client_returns WaitForSeal_execution_error
    [of world_0 0 sealing_client 5 _ _ sealed_result
        "\<lparr>block_calls = 0, result_calls = 3, slept = 2\<rparr>"]
  have 2: "Error sealed_result = None"
    by blast
  from 1 2 show ?thesis
    by (simp add: reverted_result_def)
qed

text \<open>
  Claim C6. If every poll from the first on answers a result that is not sealed and
  carries no execution error, with no transport error, \<open>WaitForSeal\<close> never returns.
  When it does return, it has made at least one poll, every poll before the last one
  told it to go on, and the last one reported a transport error, an execution error or
  the sealed status. (An answer with neither a result nor an error, which the SDK's
  client does not give, makes the Go code dereference \<open>nil\<close>: that is the
  outcome \<open>Panic\<close>, not a return.)
\<close>

theorem WaitForSeal_unbounded:
  "((\<forall>j\<ge>result_calls w. \<exists>r. transaction_result c j txid = (Some r, None)
        \<and> Status r \<noteq> TransactionStatusSealed \<and> Error r = None)
      \<longrightarrow> WaitForSeal c txid w = None)
   \<and> (WaitForSeal c txid w = Some (Return v, w')
      \<longrightarrow> result_calls w < result_calls w'
        \<and> (\<forall>j. result_calls w \<le> j \<and> Suc j < result_calls w'
              \<longrightarrow> keeps_polling (transaction_result c j txid))
        \<and> (\<exists>res err. transaction_result c (result_calls w' - 1) txid = (res, err)
              \<and> (err \<noteq> None
                 \<or> (\<exists>r. res = Some r \<and> (Error r \<noteq> None \<or> Status r = TransactionStatusSealed)))))"
proof (intro conjI impI)
  assume "\<forall>j\<ge>result_calls w. \<exists>r. transaction_result c j txid = (Some r, None)
        \<and> Status r \<noteq> TransactionStatusSealed \<and> Error r = None"
  then have "\<forall>j\<ge>result_calls w. keeps_polling (transaction_result c j txid)"
    by (blast intro: keeps_pollingI)
  then show "WaitForSeal c txid w = None"
    by (rule WaitForSeal_diverges)
next
  assume L: "WaitForSeal c txid w = Some (Return v, w')"
  have "result_calls w < result_calls w'
        \<and> (\<forall>j. result_calls w \<le> j \<and> Suc j < result_calls w'
              \<longrightarrow> keeps_polling (transaction_result c j txid))
        \<and> (\<exists>res err. transaction_result c (result_calls w' - 1) txid = (res, err)
              \<and> (err \<noteq> None
                 \<or> (\<exists>r. res = Some r \<and> (Error r \<noteq> None \<or> Status r = TransactionStatusSealed))))"
  proof (cases rule: WaitForSeal_cases[of w c txid])
    case waits_for_ever
    with L show ?thesis by simp
  next
    case (returns_at k)
    with L have s: "settles (transaction_result c k txid) = Return v"
      and w': "w' = w\<lparr>result_calls := Suc k, slept := slept w + (k - result_calls w)\<rparr>"
      by simp_all
    from w' have k: "result_calls w' = Suc k" by simp
    obtain res err where a: "transaction_result c k txid = (res, err)"
      by (cases "transaction_result c k txid")
    from s a returns_at(3)
    have "err \<noteq> None
        \<or> (\<exists>r. res = Some r \<and> (Error r \<noteq> None \<or> Status r = TransactionStatusSealed))"
      by (auto simp: settles_def keeps_polling_def split: option.splits)
    with a k returns_at(1,2) show ?thesis by auto
  qed
  then show "result_calls w < result_calls w'"
    and "\<forall>j. result_calls w \<le> j \<and> Suc j < result_calls w'
              \<longrightarrow> keeps_polling (transaction_result c j txid)"
    and "\<exists>res err. transaction_result c (result_calls w' - 1) txid = (res, err)
              \<and> (err \<noteq> None
                 \<or> (\<exists>r. res = Some r \<and> (Error r \<noteq> None \<or> Status r = TransactionStatusSealed)))"
    by blast+
qed

theorem WaitForSeal_unbounded_witness:
  "WaitForSeal stuck_client 5 world_0 = None
   \<and> keeps_polling (transaction_result sealing_client 1 5)"
proof -
  have "\<forall>j\<ge>result_calls world_0. \<exists>r. transaction_result stuck_client j 5 = (Some r, None)
        \<and> Status r \<noteq> TransactionStatusSealed \<and> Error r = None"
    by (simp add: stuck_client_def pending_result_def)
  with WaitForSeal_unbounded [of world_0 stuck_client 5]
  have 1: "WaitForSeal stuck_client 5 world_0 = None" by blast
  from sealing_client_returns WaitForSeal_unbounded
    [of world_0 sealing_client 5 "(Some sealed_result, None)"
        "\<lparr>block_calls = 0, result_calls = 3, slept = 2\<rparr>"]
  have "\<forall>j. result_calls world_0 \<le> j
          \<and> Suc j < result_calls \<lparr>block_calls = 0, result_calls = 3, slept = 2\<rparr>
        \<longrightarrow> keeps_polling (transaction_result sealing_client j 5)"
    by blast
  then have 2: "keeps_polling (transaction_result sealing_client 1 5)"
    by (simp add: world_0_def)
  from 1 2 show ?thesis by blast
qed

text \<open>
  Claim C7. When the wait reaches poll \<open>k\<close> (the first poll included) and that poll
  answers a transport error \<open>e\<close>, \<open>WaitForSeal\<close> returns \<open>e\<close> at once:
  \<open>k\<close> is the last poll made and nothing is slept after it. A poll is followed by
  another one only if it succeeded with a result that is not yet sealed and carries no
  execution error.
\<close>

theorem WaitForSeal_rpc_error:
  "(result_calls w \<le> k
      \<and> (\<forall>j. result_calls w \<le> j \<and> j < k \<longrightarrow> keeps_polling (transaction_result c j txid))
      \<and> transaction_result c k txid = (res, Some e)
    \<longrightarrow> WaitForSeal c txid w =
          Some (Return (res, Some e),
                w\<lparr>result_calls := Suc k, slept := slept w + (k - result_calls w)\<rparr>))
   \<and> (WaitForSeal c txid w = Some (out, w')
      \<longrightarrow> (\<forall>j. result_calls w \<le> j \<and> Suc j < result_calls w'
              \<longrightarrow> (\<exists>r. transaction_result c j txid = (Some r, None)
                      \<and> Error r = None \<and> Status r \<noteq> TransactionStatusSealed)))"
proof (intro conjI impI)
  assume "result_calls w \<le> k
      \<and> (\<forall>j. result_calls w \<le> j \<and> j < k \<longrightarrow> keeps_polling (transaction_result c j txid))
      \<and> transaction_result c k txid = (res, Some e)"
  then have le: "result_calls w \<le> k"
    and before: "\<forall>j. result_calls w \<le> j \<and> j < k \<longrightarrow> keeps_polling (transaction_result c j txid)"
    and r: "transaction_result c k txid = (res, Some e)"
    by blast+
  from r have last: "\<not> keeps_polling (transaction_result c k txid)"
    by (simp add: keeps_polling_def split: option.splits)
  from WaitForSeal_run[OF le before last] r
  show "WaitForSeal c txid w =
          Some (Return (res, Some e),
                w\<lparr>result_calls := Suc k, slept := slept w + (k - result_calls w)\<rparr>)"
    by (simp add: settles_def split: option.splits)
next
  assume L: "WaitForSeal c txid w = Some (out, w')"
  show "\<forall>j. result_calls w \<le> j \<and> Suc j < result_calls w'
              \<longrightarrow> (\<exists>r. transaction_result c j txid = (Some r, None)
                      \<and> Error r = None \<and> Status r \<noteq> TransactionStatusSealed)"
  proof (cases rule: WaitForSeal_cases[of w c txid])
    case waits_for_ever
    with L show ?thesis by simp
  next
    case (returns_at k)
    with L have "result_calls w' = Suc k" by auto
    with returns_at(2) show ?thesis by (auto dest: keeps_pollingD)
  qed
qed

theorem WaitForSeal_rpc_error_witness:
  "WaitForSeal unreachable_client 5 world_0 =
     Some (Return (None, Some ''connection refused''),
           \<lparr>block_calls = 0, result_calls = 2, slept = 1\<rparr>)
   \<and> (\<exists>r. transaction_result sealing_client 1 5 = (Some r, None)
          \<and> Error r = None \<and> Status r \<noteq> TransactionStatusSealed)"
proof -
  have "result_calls world_0 \<le> 1
      \<and> (\<forall>j. result_calls world_0 \<le> j \<and> j < 1
            \<longrightarrow> keeps_polling (transaction_result unreachable_client j 5))
      \<and> transaction_result unreachable_client 1 5 = (None, Some ''connection refused'')"
    by (simp add: unreachable_client_def world_0_def pending_result_def keeps_polling_def)
  with WaitForSeal_rpc_error
    [of world_0 1 unreachable_client 5 None "''connection refused''"]
  have 1: "WaitForSeal unreachable_client 5 world_0 =
     Some (Return (None, Some ''connection refused''),
           \<lparr>block_calls = 0, result_calls = 2, slept = 1\<rparr>)"
    by (simp add: world_0_def)
  from sealing_client_returns WaitForSeal_rpc_error
    [of world_0 0 sealing_client 5 _ _ "Return (Some sealed_result, None)"
        "\<lparr>block_calls = 0, result_calls = 3, slept = 2\<rparr>"]
  have "\<forall>j. result_calls world_0 \<le> j
          \<and> Suc j < result_calls \<lparr>block_calls = 0, result_calls = 3, slept = 2\<rparr>
        \<longrightarrow> (\<exists>r. transaction_result sealing_client j 5 = (Some r, None)
              \<and> Error r = None \<and> Status r \<noteq> TransactionStatusSealed)"
    by blast
  then have 2: "\<exists>r. transaction_result sealing_client 1 5 = (Some r, None)
          \<and> Error r = None \<and> Status r \<noteq> TransactionStatusSealed"
    by (simp add: world_0_def)
  from 1 2 show ?thesis by blast
qed

text \<open>
  Claim C9. \<open>GetLatestBlockId\<close> makes one call of \<open>GetLatestBlock\<close>, with the
  sealed flag set: it returns the ID of the block that call answers, and the zero
  identifier together with the error when the call fails. What the client would answer
  for unsealed blocks has no influence on it.
\<close>

theorem GetLatestBlockId_sealed_only:
  "(latest_block c (block_calls w) True = (Some b, None)
      \<longrightarrow> GetLatestBlockId c w =
            (Return (ID b, None), w\<lparr>block_calls := Suc (block_calls w)\<rparr>))
   \<and> (latest_block c (block_calls w) True = (blk, Some e)
      \<longrightarrow> GetLatestBlockId c w =
            (Return (0, Some e), w\<lparr>block_calls := Suc (block_calls w)\<rparr>))
   \<and> (latest_block c' (block_calls w) True = latest_block c (block_calls w) True
      \<longrightarrow> GetLatestBlockId c' w = GetLatestBlockId c w)"
  by (simp add: GetLatestBlockId_def GetLatestBlock_def)

theorem GetLatestBlockId_sealed_only_witness:
  "GetLatestBlockId sealing_client world_0 =
     (Return (77, None), \<lparr>block_calls = 1, result_calls = 0, slept = 0\<rparr>)
   \<and> GetLatestBlockId unreachable_client world_0 =
     (Return (0, Some ''connection refused''), \<lparr>block_calls = 1, result_calls = 0, slept = 0\<rparr>)
   \<and> latest_block sealing_client 0 False \<noteq> latest_block stuck_client 0 False
   \<and> GetLatestBlockId sealing_client world_0 = GetLatestBlockId stuck_client world_0"
proof -
  have "latest_block sealing_client (block_calls world_0) True =
        latest_block stuck_client (block_calls world_0) True"
    by (simp add: sealing_client_def stuck_client_def)
  with GetLatestBlockId_sealed_only [of stuck_client world_0 _ _ _ sealing_client]
  have 3: "GetLatestBlockId sealing_client world_0 = GetLatestBlockId stuck_client world_0"
    by blast
  have 4: "latest_block sealing_client 0 False \<noteq> latest_block stuck_client 0 False"
    by (simp add: sealing_client_def stuck_client_def)
  from 3 4 GetLatestBlockId_sealed_only [of sealing_client world_0 block_7]
    GetLatestBlockId_sealed_only [of unreachable_client world_0 _ None "''connection refused''"]
  show ?thesis
    by (simp add: sealing_client_def unreachable_client_def world_0_def block_7_def)
qed

text \<open>
  Claim C10. If the first poll answers a sealed result with no execution error and no
  transport error, \<open>WaitForSeal\<close> returns that result after exactly one poll and
  without sleeping.
\<close>

theorem WaitForSeal_sealed_first_poll:
  assumes "transaction_result c (result_calls w) txid = (Some r, None)"
    and "Status r = TransactionStatusSealed"
    and "Error r = None"
  shows "WaitForSeal c txid w =
           Some (Return (Some r, None), w\<lparr>result_calls := Suc (result_calls w)\<rparr>)"
  using assms by (simp add: WaitForSeal_def GetTransactionResult_def loop_sealed)

theorem WaitForSeal_sealed_first_poll_witness:
  "WaitForSeal sealing_client 5 (world_0\<lparr>result_calls := 2\<rparr>) =
     Some (Return (Some sealed_result, None),
           \<lparr>block_calls = 0, result_calls = 3, slept = 0\<rparr>)"
  using WaitForSeal_sealed_first_poll
    [of sealing_client "world_0\<lparr>result_calls := 2\<rparr>" 5 sealed_result]
  by (simp add: sealing_client_def world_0_def sealed_result_def)

section \<open>Properties of the job ledger and the worker pool\<close>

text \<open>
  Claim C3. \<open>Submit\<close> is one step of the pool, with no waiting in it: for a fresh
  identifier it answers at once, with the admission error exactly when the worker slots
  and the backlog are both full, and with the job in state Accepted otherwise. With
  one worker and a backlog of capacity one, both idle and empty, three submissions in a
  row give two accepted jobs (one handed to the worker, one queued) and one admission
  error.
\<close>

theorem Submit_admission:
  "(job_store pool ident = None \<longrightarrow>
      (fst (Submit pool ident workflow now) = Inl AdmissionError
         \<longleftrightarrow> worker_count pool \<le> length (in_flight pool)
           \<and> backlog_capacity pool \<le> length (backlog pool))
    \<and> (fst (Submit pool ident workflow now) \<noteq> Inl AdmissionError
         \<longrightarrow> accepted (fst (Submit pool ident workflow now))))
   \<and> (worker_count pool = 1 \<and> backlog_capacity pool = 1
       \<and> in_flight pool = [] \<and> backlog pool = []
       \<and> distinct [i1, i2, i3]
       \<and> job_store pool i1 = None \<and> job_store pool i2 = None \<and> job_store pool i3 = None
      \<longrightarrow> (\<exists>pool'. submit_all pool [(i1, wf1, t1), (i2, wf2, t2), (i3, wf3, t3)] =
              ([Inr (new_job i1 wf1 t1), Inr (new_job i2 wf2 t2), Inl AdmissionError], pool')
            \<and> in_flight pool' = [i1] \<and> backlog pool' = [i2])
        \<and> length (filter accepted
              (fst (submit_all pool [(i1, wf1, t1), (i2, wf2, t2), (i3, wf3, t3)]))) = 2
        \<and> length (filter (\<lambda>r. r = Inl AdmissionError)
              (fst (submit_all pool [(i1, wf1, t1), (i2, wf2, t2), (i3, wf3, t3)]))) = 1)"
proof (intro conjI impI)
  assume fresh: "job_store pool ident = None"
  show "fst (Submit pool ident workflow now) = Inl AdmissionError
         \<longleftrightarrow> worker_count pool \<le> length (in_flight pool)
           \<and> backlog_capacity pool \<le> length (backlog pool)"
    by (auto simp: Submit_fresh[OF fresh])
  show "accepted (fst (Submit pool ident workflow now))"
    if "fst (Submit pool ident workflow now) \<noteq> Inl AdmissionError"
    using that by (auto simp: Submit_fresh[OF fresh] accepted_def new_job_def split: if_splits)
next
  assume a: "worker_count pool = 1 \<and> backlog_capacity pool = 1
       \<and> in_flight pool = [] \<and> backlog pool = []
       \<and> distinct [i1, i2, i3]
       \<and> job_store pool i1 = None \<and> job_store pool i2 = None \<and> job_store pool i3 = None"
  let ?j1 = "new_job i1 wf1 t1" and ?j2 = "new_job i2 wf2 t2" and ?j3 = "new_job i3 wf3 t3"
  let ?p1 = "pool\<lparr>in_flight := [i1], job_store := (job_store pool)(i1 \<mapsto> ?j1)\<rparr>"
  let ?p2 = "?p1\<lparr>backlog := [i2], job_store := (job_store ?p1)(i2 \<mapsto> ?j2)\<rparr>"
  let ?p3 = "?p2\<lparr>job_store := (job_store ?p2)(i3 \<mapsto> ?j3)\<rparr>"
  from a have s1: "Submit pool i1 wf1 t1 = (Inr ?j1, ?p1)"
    by (simp add: Submit_fresh)
  from a have "job_store ?p1 i2 = None" by simp
  from Submit_fresh[OF this, of wf2 t2] a have s2: "Submit ?p1 i2 wf2 t2 = (Inr ?j2, ?p2)"
    by simp
  from a have "job_store ?p2 i3 = None" by simp
  from Submit_fresh[OF this, of wf3 t3] a have s3: "Submit ?p2 i3 wf3 t3 = (Inl AdmissionError, ?p3)"
    by simp
  have all: "submit_all pool [(i1, wf1, t1), (i2, wf2, t2), (i3, wf3, t3)] =
      ([Inr ?j1, Inr ?j2, Inl AdmissionError], ?p3)"
    by (simp only: submit_all.simps s1 s2 s3 prod.case)
  show "\<exists>pool'. submit_all pool [(i1, wf1, t1), (i2, wf2, t2), (i3, wf3, t3)] =
              ([Inr ?j1, Inr ?j2, Inl AdmissionError], pool')
            \<and> in_flight pool' = [i1] \<and> backlog pool' = [i2]"
    unfolding all by (rule exI[of _ ?p3]) simp
  show "length (filter accepted
              (fst (submit_all pool [(i1, wf1, t1), (i2, wf2, t2), (i3, wf3, t3)]))) = 2"
    unfolding all by (simp add: accepted_def new_job_def)
  show "length (filter (\<lambda>r. r = Inl AdmissionError)
              (fst (submit_all pool [(i1, wf1, t1), (i2, wf2, t2), (i3, wf3, t3)]))) = 1"
    unfolding all by simp
qed

theorem Submit_admission_witness:
  "map accepted (fst (submit_all test_pool
       [(1, ''account_create'', 10), (2, ''account_create'', 11), (3, ''account_create'', 12)]))
     = [True, True, False]
   \<and> fst (submit_all test_pool
       [(1, ''account_create'', 10), (2, ''account_create'', 11), (3, ''account_create'', 12)]) ! 2
     = Inl AdmissionError
   \<and> accepted (fst (Submit test_pool 1 ''account_create'' 10))"
proof -
  have "worker_count test_pool = 1 \<and> backlog_capacity test_pool = 1
       \<and> in_flight test_pool = [] \<and> backlog test_pool = []
       \<and> distinct [1, 2, 3::nat]
       \<and> job_store test_pool 1 = None \<and> job_store test_pool 2 = None
       \<and> job_store test_pool 3 = None"
    by (simp add: test_pool_def)
  with Submit_admission [of test_pool _ _ _ 1 2 3 "''account_create''" 10
      "''account_create''" 11 "''account_create''" 12]
  obtain pool' where "submit_all test_pool
       [(1, ''account_create'', 10), (2, ''account_create'', 11), (3, ''account_create'', 12)] =
      ([Inr (new_job 1 ''account_create'' 10), Inr (new_job 2 ''account_create'' 11),
        Inl AdmissionError], pool')"
    by blast
  then have 1: "map accepted (fst (submit_all test_pool
       [(1, ''account_create'', 10), (2, ''account_create'', 11), (3, ''account_create'', 12)]))
     = [True, True, False]
   \<and> fst (submit_all test_pool
       [(1, ''account_create'', 10), (2, ''account_create'', 11), (3, ''account_create'', 12)]) ! 2
     = Inl AdmissionError"
    by (simp add: accepted_def new_job_def)
  have "job_store test_pool 1 = None"
    and "\<not> (worker_count test_pool \<le> length (in_flight test_pool)
           \<and> backlog_capacity test_pool \<le> length (backlog test_pool))"
    by (simp_all add: test_pool_def)
  with Submit_admission [of test_pool 1 "''account_create''" 10]
  have 2: "accepted (fst (Submit test_pool 1 ''account_create'' 10))"
    by blast
  from 1 2 show ?thesis by blast
qed

text \<open>
  Claim C4. A job that is Complete or Failed stays as it is under every sequence of
  ledger mutations, and \<open>Transition\<close> on it is rejected with an error. In every
  ledger built from the empty one, the result and the error of a job are never both
  set, and both are unset while the job is not terminal.
\<close>

theorem terminal_job_is_final:
  "(store i = Some job \<and> terminal (job_state job)
      \<longrightarrow> run_ops store ops i = Some job
        \<and> Transition store i completion now = Inl AlreadyTerminal)
   \<and> (run_ops Map.empty ops i = Some job'
      \<longrightarrow> (job_result job' = None \<or> job_error job' = None)
        \<and> (\<not> terminal (job_state job') \<longrightarrow> job_result job' = None \<and> job_error job' = None))"
proof (intro conjI impI)
  assume a: "store i = Some job \<and> terminal (job_state job)"
  then show "run_ops store ops i = Some job"
    by (simp add: run_ops_keeps_terminal)
  from a show "Transition store i completion now = Inl AlreadyTerminal"
    by (simp add: Transition_def)
next
  assume r: "run_ops Map.empty ops i = Some job'"
  have "\<forall>i job. run_ops Map.empty ops i = Some job \<longrightarrow> consistent job"
    by (rule run_ops_consistent) simp
  with r have "consistent job'" by blast
  then show "job_result job' = None \<or> job_error job' = None"
    and "\<not> terminal (job_state job') \<Longrightarrow> job_result job' = None"
    and "\<not> terminal (job_state job') \<Longrightarrow> job_error job' = None"
    by (auto dest: consistentD)
qed

theorem terminal_job_is_final_witness:
  "run_ops Map.empty
     [OpCreate 1 ''account_create'' 10,
      OpTransition 1 (Succeeded ''0x01cf0e2f2f715450'') 20,
      OpTransition 1 (Failure ''execution reverted'') 30,
      OpCreate 1 ''account_create'' 40] 1 = Some done_job
   \<and> Transition
       (run_ops Map.empty
          [OpCreate 1 ''account_create'' 10,
           OpTransition 1 (Succeeded ''0x01cf0e2f2f715450'') 20])
       1 (Failure ''execution reverted'') 30 = Inl AlreadyTerminal
   \<and> terminal (job_state done_job)
   \<and> job_error done_job = None"
proof -
  let ?first = "[OpCreate 1 ''account_create'' 10,
           OpTransition 1 (Succeeded ''0x01cf0e2f2f715450'') 20]"
  let ?store = "run_ops Map.empty ?first"
  let ?ops = "[OpTransition 1 (Failure ''execution reverted'') 30,
      OpCreate 1 ''account_create'' 40]"
  have s: "?store 1 = Some done_job \<and> terminal (job_state done_job)"
    by (simp add: run_ops_def Create_def Transition_def new_job_def complete_job_def
          terminal_def done_job_def)
  have split: "run_ops Map.empty
     [OpCreate 1 ''account_create'' 10,
      OpTransition 1 (Succeeded ''0x01cf0e2f2f715450'') 20,
      OpTransition 1 (Failure ''execution reverted'') 30,
      OpCreate 1 ''account_create'' 40] = run_ops ?store ?ops"
    by (simp add: run_ops_def)
  from s terminal_job_is_final
    [of ?store 1 done_job ?ops "Failure ''execution reverted''" 30]
  have 1: "run_ops ?store ?ops 1 = Some done_job
        \<and> Transition ?store 1 (Failure ''execution reverted'') 30 = Inl AlreadyTerminal"
    by blast
  have filled: "job_result done_job \<noteq> None"
    by (simp add: done_job_def)
  from s have "?store 1 = Some done_job" ..
  with terminal_job_is_final
    [of Map.empty 1 done_job ?first "Failure ''execution reverted''" 30 done_job,
     THEN conjunct2]
  have "job_result done_job = None \<or> job_error done_job = None"
    by (rule mp [THEN conjunct1])
  note d = this
  from d filled have 2: "job_error done_job = None"
    by blast
  from 1 2 split s show ?thesis
    by simp
qed

end
